theory Spec2Isabelle
  imports Complex_Main "HOL-Library.Word"
begin

section \<open>Data model of the voice assistant component (src/App.tsx)\<close>

text \<open>
  \<open>ConnectionStatus\<close> is the union type of types.ts. Audio contexts, the session,
  media tracks, playback nodes and animation-frame requests are browser objects; the model
  names each by a handle (a natural number). JavaScript numbers (times, durations,
  intensity, samples) are modelled as reals, NaN and the infinities left out.
\<close>

datatype ConnectionStatus = Disconnected | Connecting | Connected | Error

text \<open>
  Calls the component makes on its collaborators, in the order it makes them:
  \<open>session.close()\<close>, \<open>track.stop()\<close>, \<open>source.stop()\<close>, \<open>ctx.close()\<close>,
  \<open>source.start(t)\<close> and \<open>session.sendRealtimeInput({media: blob})\<close>.
\<close>

datatype call =
    SessionClose nat
  | TrackStop nat
  | SourceStop nat
  | ContextClose nat
  | SourceStart nat real
  | SendRealtimeInput string

text \<open>
  The React state (\<open>useState\<close>) and the refs (\<open>useRef\<close>) of the component, lines 35-54.
  \<open>sourcesRef\<close> is a JavaScript \<open>Set\<close>: it iterates in insertion order and holds no
  duplicates, so it is a list kept duplicate-free by \<open>set_add\<close>. \<open>streamRef\<close> holds the
  tracks of the microphone stream. Three fields stand for the browser: \<open>pendingFrames\<close>
  are the animation-frame requests that are scheduled and not cancelled
  (\<open>cancelAnimationFrame\<close> of a handle that is not pending does nothing), \<open>calls\<close> is the
  log of calls made on collaborators, and \<open>nodeCount\<close> is the number of playback nodes
  created so far, so that \<open>ctx.createBufferSource()\<close> returns a fresh object.
\<close>

record app =
  status :: ConnectionStatus
  errorMessage :: "string option"
  isSpeaking :: bool
  intensity :: real
  isMuted :: bool
  inputAudioCtxRef :: "nat option"
  outputAudioCtxRef :: "nat option"
  streamRef :: "nat list option"
  sourcesRef :: "nat list"
  nextStartTimeRef :: real
  sessionRef :: "nat option"
  isMutedRef :: bool
  rafRef :: "nat option"
  pendingFrames :: "nat set"
  calls :: "call list"
  nodeCount :: nat

definition initial :: app where
  "initial = \<lparr> status = Disconnected, errorMessage = None, isSpeaking = False,
     intensity = 0, isMuted = False, inputAudioCtxRef = None, outputAudioCtxRef = None,
     streamRef = None, sourcesRef = [], nextStartTimeRef = 0, sessionRef = None,
     isMutedRef = False, rafRef = None, pendingFrames = {}, calls = [], nodeCount = 0 \<rparr>"

definition set_add :: "nat \<Rightarrow> nat list \<Rightarrow> nat list" where
  "set_add x xs = (if x \<in> set xs then xs else xs @ [x])"

definition set_delete :: "nat \<Rightarrow> nat list \<Rightarrow> nat list" where
  "set_delete x xs = removeAll x xs"

section \<open>Teardown\<close>

text \<open>
  \<open>cleanup\<close>, lines 56-79, statement by statement. \<open>if (rafRef.current)\<close> is a
  truthiness test: a handle of 0 is falsy. \<open>sessionRef.current.close?.()\<close> is taken to
  find the method. \<open>rafRef.current\<close> itself is not reset, and neither are
  \<open>nextStartTimeRef\<close> and the error message.
\<close>

definition cleanup_raf :: "app \<Rightarrow> app" where
  "cleanup_raf s =
     (case rafRef s of
        Some r \<Rightarrow> if r \<noteq> 0 then s\<lparr>pendingFrames := pendingFrames s - {r}\<rparr> else s
      | None \<Rightarrow> s)"

definition cleanup_session :: "app \<Rightarrow> app" where
  "cleanup_session s =
     (case sessionRef s of
        Some sess \<Rightarrow> s\<lparr>calls := calls s @ [SessionClose sess], sessionRef := None\<rparr>
      | None \<Rightarrow> s)"

definition cleanup_stream :: "app \<Rightarrow> app" where
  "cleanup_stream s =
     (case streamRef s of
        Some tracks \<Rightarrow> s\<lparr>calls := calls s @ map TrackStop tracks, streamRef := None\<rparr>
      | None \<Rightarrow> s)"

definition cleanup_sources :: "app \<Rightarrow> app" where
  "cleanup_sources s = s\<lparr>calls := calls s @ map SourceStop (sourcesRef s), sourcesRef := []\<rparr>"

definition cleanup_contexts :: "app \<Rightarrow> app" where
  "cleanup_contexts s =
     (let c1 = (case inputAudioCtxRef s of Some c \<Rightarrow> [ContextClose c] | None \<Rightarrow> []);
          c2 = (case outputAudioCtxRef s of Some c \<Rightarrow> [ContextClose c] | None \<Rightarrow> [])
      in s\<lparr>calls := calls s @ c1 @ c2, inputAudioCtxRef := None, outputAudioCtxRef := None\<rparr>)"

definition cleanup_flags :: "app \<Rightarrow> app" where
  "cleanup_flags s =
     s\<lparr>status := Disconnected, isSpeaking := False, intensity := 0, isMuted := False,
       isMutedRef := False\<rparr>"

definition cleanup :: "app \<Rightarrow> app" where
  "cleanup s =
     cleanup_flags (cleanup_contexts (cleanup_sources (cleanup_stream (cleanup_session
       (cleanup_raf s)))))"

section \<open>Visual feedback\<close>

text \<open>
  \<open>update\<close>, lines 91-101, the body of the animation-frame loop of \<open>startAnalysis\<close>.
  \<open>average\<close> is the mean of the analyser's frequency bins, \<open>capturedSpeaking\<close> the value
  of \<open>isSpeaking\<close> in the closure that created the loop, and \<open>frame\<close> the handle that
  \<open>requestAnimationFrame\<close> returns.
\<close>

definition update :: "real \<Rightarrow> bool \<Rightarrow> nat \<Rightarrow> app \<Rightarrow> app" where
  "update average capturedSpeaking frame s =
     s\<lparr>intensity :=
         (if isMutedRef s then (if capturedSpeaking then average / 512 else 0)
          else average / 255),
       rafRef := Some frame,
       pendingFrames := insert frame (pendingFrames s)\<rparr>"

definition startAnalysis :: "real \<Rightarrow> bool \<Rightarrow> nat \<Rightarrow> app \<Rightarrow> app" where
  "startAnalysis average capturedSpeaking frame s = update average capturedSpeaking frame s"

section \<open>Connecting\<close>

text \<open>
  \<open>connect\<close>, lines 105-206, is asynchronous: it runs up to each \<open>await\<close> and resumes when
  the awaited promise settles. Each piece between two suspension points is one function.
  \<open>connect_begin\<close> is lines 107-116 (the new audio contexts get the handles \<open>ctxIn\<close> and
  \<open>ctxOut\<close>), \<open>connect_stream\<close> lines 120-122 after \<open>getUserMedia\<close> resolved,
  \<open>connect_session\<close> line 200 after the session promise resolved, and \<open>connect_catch\<close>
  the handler of lines 201-205, where \<open>err.message || '...'\<close> takes the default for a
  missing or empty message.
\<close>

definition connect_begin :: "nat \<Rightarrow> nat \<Rightarrow> app \<Rightarrow> app" where
  "connect_begin ctxIn ctxOut s =
     s\<lparr>status := Connecting, errorMessage := None,
       inputAudioCtxRef := Some ctxIn, outputAudioCtxRef := Some ctxOut\<rparr>"

definition connect_catch :: "string option \<Rightarrow> app \<Rightarrow> app" where
  "connect_catch message s =
     cleanup (s\<lparr>errorMessage :=
       Some (case message of
               None \<Rightarrow> ''Failed to start the conversation.''
             | Some m \<Rightarrow> if m = [] then ''Failed to start the conversation.'' else m)\<rparr>)"

text \<open>
  \<open>startAnalysis(inputAudioCtxRef.current, stream)\<close> calls a method of its first argument:
  when teardown has reset the ref in the meantime this is a TypeError, which the
  \<open>catch\<close> of \<open>connect\<close> receives. The text of that error is the browser's.
\<close>

definition typeErrorMessage :: string where
  "typeErrorMessage = ''Cannot read properties of null''"

definition connect_stream :: "nat list \<Rightarrow> real \<Rightarrow> bool \<Rightarrow> nat \<Rightarrow> app \<Rightarrow> app" where
  "connect_stream tracks average capturedSpeaking frame s =
     (let s1 = s\<lparr>streamRef := Some tracks\<rparr>
      in case inputAudioCtxRef s1 of
           None \<Rightarrow> connect_catch (Some typeErrorMessage) s1
         | Some ctx \<Rightarrow> startAnalysis average capturedSpeaking frame s1)"

definition connect_session :: "nat \<Rightarrow> app \<Rightarrow> app" where
  "connect_session sess s = s\<lparr>sessionRef := Some sess\<rparr>"

section \<open>Channel callbacks\<close>

datatype js_error = TypeError | DecodeError

text \<open>
  \<open>onopen\<close>, lines 134-151: the status is set first; wiring the capture graph then
  dereferences \<open>inputAudioCtxRef.current!\<close>, a TypeError when the ref is null. A
  callback returns the exception it ended with, if any, and the state it left.
\<close>

definition onopen :: "app \<Rightarrow> js_error option \<times> app" where
  "onopen s =
     (let s1 = s\<lparr>status := Connected\<rparr>
      in case inputAudioCtxRef s1 of None \<Rightarrow> (Some TypeError, s1) | Some ctx \<Rightarrow> (None, s1))"

text \<open>
  \<open>onaudioprocess\<close>, lines 140-147. \<open>createPcmBlob\<close> lives in services/audioUtils, so the
  encoder is a parameter; the blob is sent through \<open>sessionPromise.then\<close>, which keeps the
  order of the blocks.
\<close>

definition onaudioprocess :: "(real list \<Rightarrow> string) \<Rightarrow> real list \<Rightarrow> app \<Rightarrow> app" where
  "onaudioprocess createPcmBlob inputData s =
     (if isMutedRef s then s
      else s\<lparr>calls := calls s @ [SendRealtimeInput (createPcmBlob inputData)]\<rparr>)"

text \<open>
  A server message, reduced to the two fields the handler reads:
  \<open>serverContent?.modelTurn?.parts?.[0]?.inlineData?.data\<close> and
  \<open>serverContent?.interrupted\<close>.
\<close>

record LiveServerMessage =
  audioData :: "string option"
  interrupted :: bool

text \<open>
  \<open>onmessage\<close>, lines 152-187. The audio branch has an \<open>await\<close> in the middle:
  \<open>onmessage_anchor\<close> is lines 155-157, before it, and \<open>onmessage_schedule\<close> lines
  166-178, after it, with \<open>duration\<close> the \<open>audioBuffer.duration\<close> of the decoded chunk.
  \<open>bufferDuration\<close> stands for \<open>decode\<close> and \<open>decodeAudioData\<close> of services/audioUtils:
  the duration of the buffer they produce, or \<open>None\<close> when they throw. \<open>currentTime\<close> is
  \<open>ctx.currentTime\<close> of the output context when the message arrives. \<open>onmessage\<close> runs
  the handler of one message to its end, with no other callback in between.
\<close>

definition onmessage_anchor :: "real \<Rightarrow> app \<Rightarrow> app" where
  "onmessage_anchor currentTime s =
     s\<lparr>isSpeaking := True, nextStartTimeRef := max (nextStartTimeRef s) currentTime\<rparr>"

definition onmessage_schedule :: "real \<Rightarrow> app \<Rightarrow> app" where
  "onmessage_schedule duration s =
     (let source = nodeCount s
      in s\<lparr>calls := calls s @ [SourceStart source (nextStartTimeRef s)],
           nextStartTimeRef := nextStartTimeRef s + duration,
           sourcesRef := set_add source (sourcesRef s),
           nodeCount := Suc source\<rparr>)"

definition onmessage_interrupted :: "app \<Rightarrow> app" where
  "onmessage_interrupted s =
     s\<lparr>calls := calls s @ map SourceStop (sourcesRef s), sourcesRef := [],
       nextStartTimeRef := 0, isSpeaking := False\<rparr>"

definition onmessage_tail :: "LiveServerMessage \<Rightarrow> app \<Rightarrow> app" where
  "onmessage_tail message s = (if interrupted message then onmessage_interrupted s else s)"

definition truthy :: "string option \<Rightarrow> bool" where
  "truthy v = (case v of None \<Rightarrow> False | Some x \<Rightarrow> x \<noteq> [])"

definition onmessage ::
  "(string \<Rightarrow> real option) \<Rightarrow> real \<Rightarrow> LiveServerMessage \<Rightarrow> app \<Rightarrow> js_error option \<times> app" where
  "onmessage bufferDuration currentTime message s =
     (if truthy (audioData message) then
        (case outputAudioCtxRef s of
           None \<Rightarrow> (Some TypeError, s\<lparr>isSpeaking := True\<rparr>)
         | Some ctx \<Rightarrow>
             (case bufferDuration (the (audioData message)) of
                None \<Rightarrow> (Some DecodeError, onmessage_anchor currentTime s)
              | Some duration \<Rightarrow>
                  (None, onmessage_tail message
                     (onmessage_schedule duration (onmessage_anchor currentTime s)))))
      else (None, onmessage_tail message s))"

text \<open>The \<open>ended\<close> listener of a playback node, lines 169-174.\<close>

definition ended :: "nat \<Rightarrow> app \<Rightarrow> app" where
  "ended source s =
     (let s1 = s\<lparr>sourcesRef := set_delete source (sourcesRef s)\<rparr>
      in if length (sourcesRef s1) = 0 then s1\<lparr>isSpeaking := False\<rparr> else s1)"

definition onerror :: "app \<Rightarrow> app" where
  "onerror s =
     cleanup (s\<lparr>errorMessage := Some ''A connection error occurred. Please try again.''\<rparr>)"

definition onclose :: "app \<Rightarrow> app" where
  "onclose s = cleanup s"

section \<open>User actions\<close>

text \<open>
  \<open>toggleConnection\<close>, lines 208-214, and \<open>toggleMute\<close>, lines 216-220. \<open>toggleMute\<close>
  negates the React state \<open>isMuted\<close> and writes the result to both the state and the ref.
\<close>

definition toggleConnection :: "nat \<Rightarrow> nat \<Rightarrow> app \<Rightarrow> app" where
  "toggleConnection ctxIn ctxOut s =
     (if status s = Connected then cleanup s else connect_begin ctxIn ctxOut s)"

definition toggleMute :: "app \<Rightarrow> app" where
  "toggleMute s = (let newState = \<not> isMuted s in s\<lparr>isMuted := newState, isMutedRef := newState\<rparr>)"

section \<open>Runs of the component\<close>

text \<open>
  Everything that can happen to the component is an event; \<open>step\<close> runs the code that
  the event triggers. The start button is disabled while the status is \<open>connecting\<close>
  (line 383) and the mute button is rendered only while it is \<open>connected\<close> (line 363),
  so a click has no effect otherwise. An animation frame fires only while its request is
  pending. \<open>Unmount\<close> is the effect cleanup of lines 223-225.
\<close>

datatype event =
    ClickConnection nat nat
  | ClickMute
  | StreamGranted "nat list" real bool nat
  | SessionResolved nat
  | ConnectFailed "string option"
  | Open
  | Message LiveServerMessage real
  | ChannelError
  | Close
  | AudioProcess "real list"
  | Ended nat
  | AnimationFrame nat real bool nat
  | Unmount

fun step :: "(string \<Rightarrow> real option) \<Rightarrow> (real list \<Rightarrow> string) \<Rightarrow> event \<Rightarrow> app \<Rightarrow> app" where
  "step bd enc (ClickConnection ctxIn ctxOut) s =
     (if status s = Connecting then s else toggleConnection ctxIn ctxOut s)"
| "step bd enc ClickMute s = (if status s = Connected then toggleMute s else s)"
| "step bd enc (StreamGranted tracks average cap frame) s =
     connect_stream tracks average cap frame s"
| "step bd enc (SessionResolved sess) s = connect_session sess s"
| "step bd enc (ConnectFailed message) s = connect_catch message s"
| "step bd enc Open s = snd (onopen s)"
| "step bd enc (Message message currentTime) s = snd (onmessage bd currentTime message s)"
| "step bd enc ChannelError s = onerror s"
| "step bd enc Close s = onclose s"
| "step bd enc (AudioProcess inputData) s = onaudioprocess enc inputData s"
| "step bd enc (Ended source) s = ended source s"
| "step bd enc (AnimationFrame fired average cap frame) s =
     (if fired \<in> pendingFrames s
      then update average cap frame (s\<lparr>pendingFrames := pendingFrames s - {fired}\<rparr>)
      else s)"
| "step bd enc Unmount s = cleanup s"

fun run :: "(string \<Rightarrow> real option) \<Rightarrow> (real list \<Rightarrow> string) \<Rightarrow> event list \<Rightarrow> app \<Rightarrow> app" where
  "run bd enc [] s = s"
| "run bd enc (e # es) s = run bd enc es (step bd enc e s)"

section \<open>Playback of a sequence of chunks\<close>

text \<open>
  \<open>deliver\<close> hands a sequence of audio chunks to \<open>onmessage\<close>, one message each, none of
  them carrying the interruption signal; a chunk is its base64 data and the output clock
  at its arrival. \<open>startTimes\<close> reads the arguments of \<open>source.start\<close> off the call log.
\<close>

fun deliver :: "(string \<Rightarrow> real option) \<Rightarrow> (string \<times> real) list \<Rightarrow> app \<Rightarrow> app" where
  "deliver bd [] s = s"
| "deliver bd (c # cs) s =
     deliver bd cs (snd (onmessage bd (snd c) \<lparr>audioData = Some (fst c), interrupted = False\<rparr> s))"

fun startTimes :: "call list \<Rightarrow> real list" where
  "startTimes [] = []"
| "startTimes (SourceStart n t # cs) = t # startTimes cs"
| "startTimes (c # cs) = startTimes cs"

text \<open>
  The schedule as the specification words it: each chunk starts at the maximum of the
  cursor and the clock, and the cursor moves on by the chunk's duration. A chunk is here
  its clock and its duration.
\<close>

fun spec_schedule :: "real \<Rightarrow> (real \<times> real) list \<Rightarrow> real list" where
  "spec_schedule cursor [] = []"
| "spec_schedule cursor (c # cs) =
     max cursor (fst c) # spec_schedule (max cursor (fst c) + snd c) cs"

definition chunk_times :: "(string \<Rightarrow> real option) \<Rightarrow> (string \<times> real) list \<Rightarrow> (real \<times> real) list" where
  "chunk_times bd cs = map (\<lambda>c. (snd c, the (bd (fst c)))) cs"

definition playable :: "(string \<Rightarrow> real option) \<Rightarrow> string \<times> real \<Rightarrow> bool" where
  "playable bd c = (fst c \<noteq> [] \<and> (case bd (fst c) of None \<Rightarrow> False | Some d \<Rightarrow> 0 \<le> d))"

section \<open>Capture with mute toggles\<close>

datatype capture_event = Block "real list" | Toggle

fun capture :: "(real list \<Rightarrow> string) \<Rightarrow> capture_event list \<Rightarrow> app \<Rightarrow> app" where
  "capture enc [] s = s"
| "capture enc (Block inputData # es) s = capture enc es (onaudioprocess enc inputData s)"
| "capture enc (Toggle # es) s = capture enc es (toggleMute s)"

fun sent :: "call list \<Rightarrow> string list" where
  "sent [] = []"
| "sent (SendRealtimeInput blob # cs) = blob # sent cs"
| "sent (c # cs) = sent cs"

text \<open>
  The blocks the specification wants forwarded: those captured while the mute flag is
  false, in capture order, the flag flipping at every toggle.
\<close>

fun spec_forwarded :: "bool \<Rightarrow> capture_event list \<Rightarrow> real list list" where
  "spec_forwarded muted [] = []"
| "spec_forwarded muted (Block inputData # es) =
     (if muted then spec_forwarded muted es else inputData # spec_forwarded muted es)"
| "spec_forwarded muted (Toggle # es) = spec_forwarded (\<not> muted) es"

section \<open>Transitions of a run\<close>

fun transitions ::
  "(string \<Rightarrow> real option) \<Rightarrow> (real list \<Rightarrow> string) \<Rightarrow> event list \<Rightarrow> app \<Rightarrow> (app \<times> event \<times> app) list" where
  "transitions bd enc [] s = []"
| "transitions bd enc (e # es) s =
     (s, e, step bd enc e s) # transitions bd enc es (step bd enc e s)"

definition removed :: "nat \<Rightarrow> app \<times> event \<times> app \<Rightarrow> bool" where
  "removed n tr = (n \<in> set (sourcesRef (fst tr)) \<and> n \<notin> set (sourcesRef (snd (snd tr))))"

definition nodes_created :: "app \<Rightarrow> bool" where
  "nodes_created s = list_all (\<lambda>n. n < nodeCount s) (sourcesRef s)"

fun is_interruption :: "event \<Rightarrow> bool" where
  "is_interruption (Message message currentTime) = interrupted message"
| "is_interruption e = False"

text \<open>The events whose code runs \<open>cleanup\<close> in the given state.\<close>

fun is_teardown :: "app \<Rightarrow> event \<Rightarrow> bool" where
  "is_teardown s (ClickConnection ctxIn ctxOut) = (status s = Connected)"
| "is_teardown s (StreamGranted tracks average cap frame) = (inputAudioCtxRef s = None)"
| "is_teardown s (ConnectFailed message) = True"
| "is_teardown s ChannelError = True"
| "is_teardown s Close = True"
| "is_teardown s Unmount = True"
| "is_teardown s e = False"

fun is_click_connection :: "event \<Rightarrow> bool" where
  "is_click_connection (ClickConnection ctxIn ctxOut) = True"
| "is_click_connection e = False"

text \<open>The events that are a channel error or a failure while setting up capture or connection.\<close>

fun is_failure :: "app \<Rightarrow> event \<Rightarrow> bool" where
  "is_failure s ChannelError = True"
| "is_failure s (ConnectFailed message) = True"
| "is_failure s (StreamGranted tracks average cap frame) = (inputAudioCtxRef s = None)"
| "is_failure s e = False"

section \<open>Conversion of captured samples\<close>

text \<open>
  Storing a number in an \<open>Int16Array\<close> truncates it towards zero and keeps the low 16
  bits.
\<close>

definition toInt16 :: "real \<Rightarrow> 16 word" where
  "toInt16 v = word_of_int (if 0 \<le> v then \<lfloor>v\<rfloor> else \<lceil>v\<rceil>)"

text \<open>
  Modelled from the spec: the sample conversion of \<open>createPcmBlob\<close>, which is in
  services/audioUtils and not among the sources. Section 4.1 says that each sample is
  converted to 16-bit signed linear PCM and that the conversion clamps the value to the
  16-bit signed range before truncation. The specification does not give the factor that
  maps a sample of [-1, 1] to that range, so it is the parameter \<open>scale\<close>.
\<close>

definition spec_pcm16 :: "real \<Rightarrow> real \<Rightarrow> 16 word" where
  "spec_pcm16 scale sample = toInt16 (max (- 32768) (min 32767 (sample * scale)))"

section \<open>Example inputs\<close>

definition five_seconds :: "string \<Rightarrow> real option" where
  "five_seconds data = Some 5"

definition one_second :: "string \<Rightarrow> real option" where
  "one_second data = Some 1"

definition no_blob :: "real list \<Rightarrow> string" where
  "no_blob inputData = []"

definition tag_blob :: "real list \<Rightarrow> string" where
  "tag_blob inputData = replicate (length inputData) CHR ''s''"

definition chunk_message :: LiveServerMessage where
  "chunk_message = \<lparr>audioData = Some ''AAAA'', interrupted = False\<rparr>"

definition interruption_message :: LiveServerMessage where
  "interruption_message = \<lparr>audioData = None, interrupted = True\<rparr>"

definition session_events :: "event list" where
  "session_events =
     [ClickConnection 1 2, StreamGranted [1] 0 False 1, Open, SessionResolved 1,
      Message chunk_message 0]"

definition playback_events :: "event list" where
  "playback_events =
     session_events @
     [Message chunk_message 1, Ended 0, Message interruption_message 2, Ended 1]"

definition connected_example :: app where
  "connected_example =
     \<lparr> status = Connected, errorMessage = None, isSpeaking = False,
       intensity = 0, isMuted = False, inputAudioCtxRef = Some 1, outputAudioCtxRef = Some 2,
       streamRef = Some [1], sourcesRef = [], nextStartTimeRef = 0, sessionRef = Some 1,
       isMutedRef = False, rafRef = Some 1, pendingFrames = {1}, calls = [], nodeCount = 0 \<rparr>"

definition playing_example :: app where
  "playing_example =
     connected_example\<lparr>isSpeaking := True, sourcesRef := [0, 1], nextStartTimeRef := 7,
       nodeCount := 2\<rparr>"

definition chunks_in_time :: "(string \<times> real) list" where
  "chunks_in_time = [(''AAAA'', 0), (''BBBB'', 1 / 2)]"

definition chunks_late :: "(string \<times> real) list" where
  "chunks_late = [(''AAAA'', 0), (''BBBB'', 5)]"

definition capture_example :: "capture_event list" where
  "capture_example = [Block [1 / 2], Toggle, Block [1 / 4, 1 / 8], Toggle, Block [0, 0, 0]]"

section \<open>Evaluation rules\<close>

lemmas cleanup_defs =
  cleanup_def cleanup_raf_def cleanup_session_def cleanup_stream_def cleanup_sources_def
  cleanup_contexts_def cleanup_flags_def

lemmas handler_defs =
  toggleConnection_def connect_begin_def connect_stream_def Let_def startAnalysis_def
  update_def onopen_def connect_session_def onmessage_def truthy_def onmessage_anchor_def
  onmessage_schedule_def onmessage_tail_def onmessage_interrupted_def set_add_def
  set_delete_def onclose_def onerror_def connect_catch_def ended_def toggleMute_def
  onaudioprocess_def

section \<open>Teardown: what it resets and what it leaves\<close>

lemma cleanup_fields:
  "status (cleanup s) = Disconnected"
  "isSpeaking (cleanup s) = False"
  "intensity (cleanup s) = 0"
  "isMuted (cleanup s) = False"
  "isMutedRef (cleanup s) = False"
  "sourcesRef (cleanup s) = []"
  "sessionRef (cleanup s) = None"
  "streamRef (cleanup s) = None"
  "inputAudioCtxRef (cleanup s) = None"
  "outputAudioCtxRef (cleanup s) = None"
  by (simp_all add: cleanup_defs Let_def split: option.splits)

lemma cleanup_frame:
  "errorMessage (cleanup s) = errorMessage s"
  "nextStartTimeRef (cleanup s) = nextStartTimeRef s"
  "rafRef (cleanup s) = rafRef s"
  "nodeCount (cleanup s) = nodeCount s"
  by (simp_all add: cleanup_defs Let_def split: option.splits)

lemma cleanup_released:
  assumes "sessionRef s = None" "streamRef s = None" "sourcesRef s = []"
    "inputAudioCtxRef s = None" "outputAudioCtxRef s = None"
  shows "cleanup s = cleanup_flags (cleanup_raf s)"
proof -
  have r: "sessionRef (cleanup_raf s) = None" "streamRef (cleanup_raf s) = None"
    "sourcesRef (cleanup_raf s) = []" "inputAudioCtxRef (cleanup_raf s) = None"
    "outputAudioCtxRef (cleanup_raf s) = None"
    using assms by (simp_all add: cleanup_raf_def split: option.splits)
  have 1: "cleanup_session (cleanup_raf s) = cleanup_raf s"
    using r by (simp add: cleanup_session_def)
  have 2: "cleanup_stream (cleanup_raf s) = cleanup_raf s"
    using r by (simp add: cleanup_stream_def)
  have 3: "cleanup_sources (cleanup_raf s) = cleanup_raf s"
    using r by (simp add: cleanup_sources_def)
  have 4: "cleanup_contexts (cleanup_raf s) = cleanup_raf s"
    using r by (simp add: cleanup_contexts_def)
  show ?thesis by (simp add: cleanup_def 1 2 3 4)
qed

lemma cleanup_pending: "pendingFrames (cleanup s) = pendingFrames (cleanup_raf s)"
  by (simp add: cleanup_defs Let_def split: option.splits)

lemma cleanup_raf_twice: "cleanup_raf (cleanup s) = cleanup s"
proof (cases "rafRef s")
  case None
  then have "rafRef (cleanup s) = None" by (simp add: cleanup_frame)
  then show ?thesis by (simp add: cleanup_raf_def)
next
  case (Some r)
  then have a: "rafRef (cleanup s) = Some r" by (simp add: cleanup_frame)
  have "pendingFrames (cleanup s) - {r} = pendingFrames (cleanup s)" if "r \<noteq> 0"
    using that Some by (simp add: cleanup_pending cleanup_raf_def)
  then show ?thesis using a by (simp add: cleanup_raf_def)
qed

lemma cleanup_flags_twice: "cleanup_flags (cleanup s) = cleanup s"
  by (simp add: cleanup_def cleanup_flags_def)

lemma cleanup_twice: "cleanup (cleanup s) = cleanup s"
proof -
  have "cleanup (cleanup s) = cleanup_flags (cleanup_raf (cleanup s))"
    by (rule cleanup_released) (simp_all add: cleanup_fields)
  then show ?thesis by (simp only: cleanup_raf_twice cleanup_flags_twice)
qed

lemma cleanup_calls:
  "calls (cleanup s) =
     calls s
     @ (case sessionRef s of Some sess \<Rightarrow> [SessionClose sess] | None \<Rightarrow> [])
     @ (case streamRef s of Some tracks \<Rightarrow> map TrackStop tracks | None \<Rightarrow> [])
     @ map SourceStop (sourcesRef s)
     @ (case inputAudioCtxRef s of Some c \<Rightarrow> [ContextClose c] | None \<Rightarrow> [])
     @ (case outputAudioCtxRef s of Some c \<Rightarrow> [ContextClose c] | None \<Rightarrow> [])"
  by (simp add: cleanup_defs Let_def split: option.splits)

lemma cleanup_frames:
  "pendingFrames (cleanup s) =
     (case rafRef s of Some r \<Rightarrow> if r \<noteq> 0 then pendingFrames s - {r} else pendingFrames s
      | None \<Rightarrow> pendingFrames s)"
  by (simp add: cleanup_defs Let_def split: option.splits)

section \<open>Status and error message along a run\<close>

lemma run_append: "run bd enc (xs @ ys) s = run bd enc ys (run bd enc xs s)"
  by (induction xs arbitrary: s) simp_all

lemma step_status:
  "status (step bd enc e s) = status s
   \<or> (is_click_connection e \<and> status s \<noteq> Connected \<and> status s \<noteq> Connecting
        \<and> status (step bd enc e s) = Connecting)
   \<or> (e = Open \<and> status (step bd enc e s) = Connected)
   \<or> (is_teardown s e \<and> status (step bd enc e s) = Disconnected)"
  by (cases e) (simp_all add: handler_defs cleanup_fields split: option.splits)

lemma step_not_Error: "status s \<noteq> Error \<Longrightarrow> status (step bd enc e s) \<noteq> Error"
  using step_status [of bd enc e s] by auto

lemma run_not_Error: "status s \<noteq> Error \<Longrightarrow> status (run bd enc es s) \<noteq> Error"
  by (induction es arbitrary: s) (simp_all add: step_not_Error)

lemma step_errorMessage_cleared:
  "errorMessage s \<noteq> None \<Longrightarrow> errorMessage (step bd enc e s) = None \<Longrightarrow>
   is_click_connection e \<and> status s \<noteq> Connected \<and> status s \<noteq> Connecting"
  by (cases e) (auto simp add: handler_defs cleanup_frame split: option.splits if_splits)

lemma step_errorMessage_same:
  "\<not> is_failure s e \<Longrightarrow> \<not> is_click_connection e \<Longrightarrow> errorMessage (step bd enc e s) = errorMessage s"
  by (cases e) (auto simp add: handler_defs cleanup_frame split: option.splits if_splits)

lemma run_errorMessage_kept:
  "errorMessage s \<noteq> None \<Longrightarrow> list_all (\<lambda>e. \<not> is_click_connection e) es \<Longrightarrow>
   errorMessage (run bd enc es s) \<noteq> None"
proof (induction es arbitrary: s)
  case Nil
  then show ?case by simp
next
  case (Cons e es)
  have "errorMessage (step bd enc e s) \<noteq> None"
    using Cons.prems step_errorMessage_cleared [of s bd enc e] by auto
  then show ?case using Cons by simp
qed

lemma step_errorMessage_set:
  "errorMessage s = None \<Longrightarrow> (errorMessage (step bd enc e s) \<noteq> None) = is_failure s e"
  by (cases e) (auto simp add: handler_defs cleanup_frame split: option.splits if_splits)

lemma onmessage_interrupted_fields:
  "interrupted message \<Longrightarrow> fst (onmessage bd t message s) = None \<Longrightarrow>
   sourcesRef (snd (onmessage bd t message s)) = [] \<and>
   nextStartTimeRef (snd (onmessage bd t message s)) = 0 \<and>
   \<not> isSpeaking (snd (onmessage bd t message s))"
  by (auto simp add: handler_defs split: option.splits if_splits)

lemma onmessage_interrupted_stops:
  "interrupted message \<Longrightarrow> fst (onmessage bd t message s) = None \<Longrightarrow> n \<in> set (sourcesRef s) \<Longrightarrow>
   SourceStop n \<in> set (drop (length (calls s)) (calls (snd (onmessage bd t message s))))"
  by (auto simp add: handler_defs split: option.splits if_splits)

lemma onmessage_signal_only:
  "interrupted message \<Longrightarrow> \<not> truthy (audioData message) \<Longrightarrow>
   fst (onmessage bd t message s) = None \<and>
   calls (snd (onmessage bd t message s)) = calls s @ map SourceStop (sourcesRef s)"
  by (auto simp add: handler_defs split: option.splits if_splits)

section \<open>The schedule of a sequence of chunks\<close>

lemma startTimes_append: "startTimes (xs @ ys) = startTimes xs @ startTimes ys"
  by (induction xs rule: startTimes.induct) simp_all

lemma sent_append: "sent (xs @ ys) = sent xs @ sent ys"
  by (induction xs rule: sent.induct) simp_all

lemma onmessage_chunk:
  assumes "outputAudioCtxRef s \<noteq> None" "playable bd c"
  shows "snd (onmessage bd (snd c) \<lparr>audioData = Some (fst c), interrupted = False\<rparr> s) =
         onmessage_schedule (the (bd (fst c))) (onmessage_anchor (snd c) s)"
  using assms by (auto simp add: onmessage_def truthy_def playable_def onmessage_tail_def split: option.splits)

lemma chunk_fields:
  "outputAudioCtxRef (onmessage_schedule d (onmessage_anchor t s)) = outputAudioCtxRef s"
  "nextStartTimeRef (onmessage_schedule d (onmessage_anchor t s)) = max (nextStartTimeRef s) t + d"
  "startTimes (calls (onmessage_schedule d (onmessage_anchor t s))) =
     startTimes (calls s) @ [max (nextStartTimeRef s) t]"
  by (simp_all add: onmessage_schedule_def onmessage_anchor_def Let_def startTimes_append)

lemma deliver_schedule:
  "outputAudioCtxRef s \<noteq> None \<Longrightarrow> list_all (playable bd) cs \<Longrightarrow>
   startTimes (calls (deliver bd cs s)) =
     startTimes (calls s) @ spec_schedule (nextStartTimeRef s) (chunk_times bd cs)"
proof (induction cs arbitrary: s)
  case Nil
  then show ?case by (simp add: chunk_times_def)
next
  case (Cons c cs)
  let ?s1 = "onmessage_schedule (the (bd (fst c))) (onmessage_anchor (snd c) s)"
  have p: "playable bd c" and ps: "list_all (playable bd) cs" using Cons.prems by simp_all
  have st: "snd (onmessage bd (snd c) \<lparr>audioData = Some (fst c), interrupted = False\<rparr> s) = ?s1"
    using Cons.prems(1) p by (rule onmessage_chunk)
  have ctx: "outputAudioCtxRef ?s1 \<noteq> None" using Cons.prems(1) by (simp add: chunk_fields)
  have "startTimes (calls (deliver bd cs ?s1)) =
          startTimes (calls ?s1) @ spec_schedule (nextStartTimeRef ?s1) (chunk_times bd cs)"
    using ctx ps by (rule Cons.IH)
  then show ?case by (simp add: st chunk_fields chunk_times_def)
qed

lemma deliver_cursor:
  "outputAudioCtxRef s \<noteq> None \<Longrightarrow> list_all (playable bd) cs \<Longrightarrow> cs \<noteq> [] \<Longrightarrow>
   nextStartTimeRef (deliver bd cs s) =
     last (spec_schedule (nextStartTimeRef s) (chunk_times bd cs)) + snd (last (chunk_times bd cs))"
proof (induction cs arbitrary: s)
  case Nil
  then show ?case by simp
next
  case (Cons c cs)
  let ?s1 = "onmessage_schedule (the (bd (fst c))) (onmessage_anchor (snd c) s)"
  have p: "playable bd c" and ps: "list_all (playable bd) cs" using Cons.prems by simp_all
  have st: "snd (onmessage bd (snd c) \<lparr>audioData = Some (fst c), interrupted = False\<rparr> s) = ?s1"
    using Cons.prems(1) p by (rule onmessage_chunk)
  have ctx: "outputAudioCtxRef ?s1 \<noteq> None" using Cons.prems(1) by (simp add: chunk_fields)
  show ?case
  proof (cases "cs = []")
    case True
    then show ?thesis by (simp add: st chunk_fields chunk_times_def)
  next
    case False
    have "nextStartTimeRef (deliver bd cs ?s1) =
      last (spec_schedule (nextStartTimeRef ?s1) (chunk_times bd cs)) + snd (last (chunk_times bd cs))"
      using ctx ps False by (rule Cons.IH)
    moreover have "spec_schedule (nextStartTimeRef ?s1) (chunk_times bd cs) \<noteq> []"
      using False by (cases cs) (simp_all add: chunk_times_def)
    ultimately show ?thesis using False by (simp add: st chunk_fields chunk_times_def)
  qed
qed

lemma length_spec_schedule: "length (spec_schedule c xs) = length xs"
  by (induction xs arbitrary: c) simp_all

lemma spec_schedule_lower:
  "list_all (\<lambda>x. 0 \<le> snd x) xs \<Longrightarrow> t \<in> set (spec_schedule c xs) \<Longrightarrow> c \<le> t"
proof (induction xs arbitrary: c)
  case Nil
  then show ?case by simp
next
  case (Cons x xs)
  from Cons.prems(2) consider "t = max c (fst x)" | "t \<in> set (spec_schedule (max c (fst x) + snd x) xs)"
    by auto
  then show ?case
  proof cases
    case 1
    then show ?thesis by simp
  next
    case 2
    have "max c (fst x) + snd x \<le> t" using Cons.IH [OF _ 2] Cons.prems(1) by simp
    moreover have "0 \<le> snd x" using Cons.prems(1) by simp
    ultimately show ?thesis by simp
  qed
qed

lemma sorted_spec_schedule:
  "list_all (\<lambda>x. 0 \<le> snd x) xs \<Longrightarrow> sorted (spec_schedule c xs)"
proof (induction xs arbitrary: c)
  case Nil
  then show ?case by simp
next
  case (Cons x xs)
  have nn: "0 \<le> snd x" and rest: "list_all (\<lambda>x. 0 \<le> snd x) xs" using Cons.prems by simp_all
  have a: "\<forall>t\<in>set (spec_schedule (max c (fst x) + snd x) xs). max c (fst x) \<le> t"
  proof
    fix t assume "t \<in> set (spec_schedule (max c (fst x) + snd x) xs)"
    then have "max c (fst x) + snd x \<le> t" by (rule spec_schedule_lower [OF rest])
    then show "max c (fst x) \<le> t" using nn by linarith
  qed
  have b: "sorted (spec_schedule (max c (fst x) + snd x) xs)" by (rule Cons.IH [OF rest])
  have "sorted (max c (fst x) # spec_schedule (max c (fst x) + snd x) xs)"
    using a b by (simp only: sorted_simps simp_thms)
  then show ?case by (simp only: spec_schedule.simps)
qed

lemma spec_schedule_head: "xs \<noteq> [] \<Longrightarrow> spec_schedule c xs ! 0 = max c (fst (xs ! 0))"
  by (cases xs) simp_all

lemma spec_schedule_Suc:
  "Suc i < length xs \<Longrightarrow>
   spec_schedule c xs ! Suc i = max (spec_schedule c xs ! i + snd (xs ! i)) (fst (xs ! Suc i))"
proof (induction xs arbitrary: c i)
  case Nil
  then show ?case by simp
next
  case (Cons x xs)
  show ?case
  proof (cases i)
    case 0
    then have "xs \<noteq> []" using Cons.prems by auto
    then show ?thesis using 0 by (simp add: spec_schedule_head)
  next
    case (Suc j)
    then have "Suc j < length xs" using Cons.prems by simp
    then show ?thesis using Suc Cons.IH by simp
  qed
qed

lemma playable_nonneg:
  "list_all (playable bd) cs \<Longrightarrow> list_all (\<lambda>x. 0 \<le> snd x) (chunk_times bd cs)"
  by (induction cs) (auto simp add: chunk_times_def playable_def split: option.splits)

lemma step_mute_agree:
  "isMuted s = isMutedRef s \<Longrightarrow> isMuted (step bd enc e s) = isMutedRef (step bd enc e s)"
  by (cases e) (auto simp add: handler_defs cleanup_fields split: option.splits if_splits)

lemma run_mute_agree:
  "isMuted s = isMutedRef s \<Longrightarrow> isMuted (run bd enc es s) = isMutedRef (run bd enc es s)"
  by (induction es arbitrary: s) (simp_all add: step_mute_agree)

lemma capture_sent:
  "isMuted s = isMutedRef s \<Longrightarrow>
   sent (calls (capture enc es s)) = sent (calls s) @ map enc (spec_forwarded (isMutedRef s) es)"
proof (induction enc es s rule: capture.induct)
  case (1 enc s)
  then show ?case by simp
next
  case (2 enc inputData es s)
  have "isMuted (onaudioprocess enc inputData s) = isMutedRef (onaudioprocess enc inputData s)"
    using "2.prems" by (simp add: onaudioprocess_def)
  then show ?case using "2.IH" by (simp add: onaudioprocess_def sent_append)
next
  case (3 enc es s)
  have "isMuted (toggleMute s) = isMutedRef (toggleMute s)" by (simp add: toggleMute_def Let_def)
  then show ?case using "3.IH" "3.prems" by (simp add: toggleMute_def Let_def)
qed

section \<open>The active playback set along a run\<close>

lemma step_speaking_cleared:
  "isSpeaking s \<Longrightarrow> \<not> isSpeaking (step bd enc e s) \<Longrightarrow> sourcesRef (step bd enc e s) = []"
  by (cases e) (auto simp add: handler_defs cleanup_fields split: option.splits if_splits)

lemma step_emptied:
  "sourcesRef s \<noteq> [] \<Longrightarrow> sourcesRef (step bd enc e s) = [] \<Longrightarrow> \<not> isSpeaking (step bd enc e s)"
  by (cases e) (auto simp add: handler_defs cleanup_fields split: option.splits if_splits)

lemma removeAll_empty: "removeAll x xs = [] \<Longrightarrow> n \<in> set xs \<Longrightarrow> x = n"
proof -
  assume a: "removeAll x xs = []" and b: "n \<in> set xs"
  have "set (removeAll x xs) = set xs - {x}" by (rule set_removeAll)
  then show "x = n" using a b by auto
qed

lemma step_removed_by:
  "n \<in> set (sourcesRef s) \<Longrightarrow> n \<notin> set (sourcesRef (step bd enc e s)) \<Longrightarrow>
   e = Ended n \<or> is_interruption e \<or> is_teardown s e"
  by (cases e) (auto simp add: handler_defs cleanup_fields dest: removeAll_empty split: option.splits if_splits)

lemma step_Ended_absent: "n \<notin> set (sourcesRef (step bd enc (Ended n) s))"
  by (simp add: handler_defs)

lemma step_nodeCount: "nodeCount s \<le> nodeCount (step bd enc e s)"
  by (cases e) (auto simp add: handler_defs cleanup_frame split: option.splits if_splits)

lemma step_stays_absent:
  "n < nodeCount s \<Longrightarrow> n \<notin> set (sourcesRef s) \<Longrightarrow> n \<notin> set (sourcesRef (step bd enc e s))"
  by (cases e) (auto simp add: handler_defs cleanup_fields split: option.splits if_splits)

lemma step_nodes_created: "nodes_created s \<Longrightarrow> nodes_created (step bd enc e s)"
  unfolding nodes_created_def list_all_iff
  by (cases e) (auto simp add: handler_defs cleanup_fields cleanup_frame split: option.splits if_splits)

lemma never_removed:
  "n < nodeCount s \<Longrightarrow> n \<notin> set (sourcesRef s) \<Longrightarrow>
   filter (removed n) (transitions bd enc es s) = []"
proof (induction es arbitrary: s)
  case Nil
  then show ?case by simp
next
  case (Cons e es)
  have "n < nodeCount (step bd enc e s)"
    using Cons.prems(1) step_nodeCount [of s bd enc e] by linarith
  moreover have "n \<notin> set (sourcesRef (step bd enc e s))"
    using Cons.prems by (rule step_stays_absent)
  ultimately have "filter (removed n) (transitions bd enc es (step bd enc e s)) = []"
    by (rule Cons.IH)
  moreover have "\<not> removed n (s, e, step bd enc e s)"
    using Cons.prems(2) by (simp add: removed_def)
  ultimately show ?case by simp
qed

lemma removed_at_most_once:
  "nodes_created s \<Longrightarrow> length (filter (removed n) (transitions bd enc es s)) \<le> 1"
proof (induction es arbitrary: s)
  case Nil
  then show ?case by simp
next
  case (Cons e es)
  let ?s1 = "step bd enc e s"
  have nc: "nodes_created ?s1" using Cons.prems by (rule step_nodes_created)
  show ?case
  proof (cases "removed n (s, e, ?s1)")
    case True
    then have m: "n \<in> set (sourcesRef s)" and a: "n \<notin> set (sourcesRef ?s1)"
      by (simp_all add: removed_def)
    have "n < nodeCount s" using Cons.prems m by (simp add: nodes_created_def list_all_iff)
    then have "n < nodeCount ?s1" using step_nodeCount [of s bd enc e] by linarith
    then have "filter (removed n) (transitions bd enc es ?s1) = []"
      using a by (rule never_removed)
    then show ?thesis using True by simp
  next
    case False
    then show ?thesis using Cons.IH [OF nc] by simp
  qed
qed

lemma transitions_steps:
  "tr \<in> set (transitions bd enc es s) \<Longrightarrow> snd (snd tr) = step bd enc (fst (snd tr)) (fst tr)"
  by (induction es arbitrary: s) auto

section \<open>Sample conversion\<close>

lemma sint16: "- 32768 \<le> k \<Longrightarrow> k \<le> 32767 \<Longrightarrow> sint (word_of_int k :: 16 word) = k"
  by (simp add: signed_take_bit_int_eq_self sint_sbintrunc')

lemma pcm_value:
  "sint (spec_pcm16 scale x) =
     (let v = max (- 32768) (min 32767 (x * scale)) in if 0 \<le> v then \<lfloor>v\<rfloor> else \<lceil>v\<rceil>)"
proof -
  define v where "v = max (- 32768) (min 32767 (x * scale))"
  have b: "- 32768 \<le> v" "v \<le> 32767" by (simp_all add: v_def)
  define k where "k = (if 0 \<le> v then \<lfloor>v\<rfloor> else \<lceil>v\<rceil>)"
  have "- 32768 \<le> k" using b by (simp add: k_def le_floor_iff le_ceiling_iff) (linarith?)
  moreover have "k \<le> 32767" using b by (simp add: k_def floor_le_iff ceiling_le_iff) (linarith?)
  ultimately have "sint (word_of_int k :: 16 word) = k" by (rule sint16)
  moreover have "spec_pcm16 scale x = word_of_int k"
    by (simp only: spec_pcm16_def toInt16_def k_def v_def)
  ultimately show ?thesis by (simp only: Let_def k_def v_def)
qed

section \<open>Claims\<close>

subsection \<open>C1: gapless schedule\<close>

text \<open>
  C1, as stated, fails: a chunk that arrives after the output clock has passed the cursor
  starts at the clock, not at the previous start plus the previous duration. With chunks
  of one second arriving at clock 0 and clock 5, the second one starts at 5, not at 1.
\<close>

theorem successive_start_counterexample:
  "startTimes (calls (deliver one_second chunks_late connected_example)) = [0, 5] \<and>
   startTimes (calls (deliver one_second chunks_late connected_example)) ! 1 \<noteq>
     startTimes (calls (deliver one_second chunks_late connected_example)) ! 0
       + the (one_second (fst (chunks_late ! 0)))"
proof -
  have "startTimes (calls (deliver one_second chunks_late connected_example)) = [0, 5]"
    by (simp add: chunks_late_def connected_example_def one_second_def handler_defs)
  then show ?thesis by (simp add: chunks_late_def one_second_def)
qed

text \<open>
  C1, amended: for every sequence of decodable chunks with non-negative durations,
  delivered in order to a state with an output context and with no interruption signal
  between them, each chunk is started at the maximum of the cursor and the output clock
  at its arrival, and the cursor is then that start plus the chunk's duration. So the
  start times are non-decreasing, each successive start is the maximum of the previous
  start plus the previous duration and the clock at arrival, it is never earlier than the
  previous start plus the previous duration, and it is equal to it whenever the clock at
  arrival has not passed that point.
\<close>

theorem chunk_schedule:
  assumes "outputAudioCtxRef s \<noteq> None" and "list_all (playable bd) cs"
  shows "let ts = drop (length (startTimes (calls s))) (startTimes (calls (deliver bd cs s)));
             ds = map (\<lambda>c. the (bd (fst c))) cs
         in length ts = length cs \<and> sorted ts
            \<and> (cs \<noteq> [] \<longrightarrow> ts ! 0 = max (nextStartTimeRef s) (snd (cs ! 0))
                  \<and> nextStartTimeRef (deliver bd cs s) = last ts + last ds)
            \<and> (\<forall>i. Suc i < length cs \<longrightarrow>
                  ts ! Suc i = max (ts ! i + ds ! i) (snd (cs ! Suc i))
                  \<and> ts ! i + ds ! i \<le> ts ! Suc i
                  \<and> (snd (cs ! Suc i) \<le> ts ! i + ds ! i \<longrightarrow> ts ! Suc i = ts ! i + ds ! i))"
proof -
  let ?xs = "chunk_times bd cs"
  let ?ts = "spec_schedule (nextStartTimeRef s) ?xs"
  let ?ds = "map (\<lambda>c. the (bd (fst c))) cs"
  have ts: "drop (length (startTimes (calls s))) (startTimes (calls (deliver bd cs s))) = ?ts"
    using assms by (simp add: deliver_schedule)
  have len: "length ?ts = length cs" by (simp add: length_spec_schedule chunk_times_def)
  have srt: "sorted ?ts" using assms(2) by (simp add: sorted_spec_schedule playable_nonneg)
  have hd: "?ts ! 0 = max (nextStartTimeRef s) (snd (cs ! 0))" if "cs \<noteq> []"
    using that by (simp add: spec_schedule_head chunk_times_def)
  have lastd: "snd (last ?xs) = last ?ds" if "cs \<noteq> []"
    using that by (simp add: chunk_times_def last_map)
  have cur: "nextStartTimeRef (deliver bd cs s) = last ?ts + last ?ds" if "cs \<noteq> []"
    using that assms lastd by (simp add: deliver_cursor)
  have nxt: "?ts ! Suc i = max (?ts ! i + ?ds ! i) (snd (cs ! Suc i))" if "Suc i < length cs" for i
  proof -
    have "Suc i < length ?xs" using that by (simp add: chunk_times_def)
    then have "?ts ! Suc i = max (?ts ! i + snd (?xs ! i)) (fst (?xs ! Suc i))"
      by (rule spec_schedule_Suc)
    then show ?thesis using that by (simp add: chunk_times_def)
  qed
  have succ: "\<forall>i. Suc i < length cs \<longrightarrow>
                  ?ts ! Suc i = max (?ts ! i + ?ds ! i) (snd (cs ! Suc i))
                  \<and> ?ts ! i + ?ds ! i \<le> ?ts ! Suc i
                  \<and> (snd (cs ! Suc i) \<le> ?ts ! i + ?ds ! i \<longrightarrow> ?ts ! Suc i = ?ts ! i + ?ds ! i)"
  proof (intro allI impI)
    fix i assume "Suc i < length cs"
    then have e: "?ts ! Suc i = max (?ts ! i + ?ds ! i) (snd (cs ! Suc i))" by (rule nxt)
    have "?ts ! i + ?ds ! i \<le> ?ts ! Suc i" by (simp only: e max.cobounded1)
    moreover have "?ts ! Suc i = ?ts ! i + ?ds ! i" if "snd (cs ! Suc i) \<le> ?ts ! i + ?ds ! i"
      using that by (simp only: e max_absorb1)
    ultimately show "?ts ! Suc i = max (?ts ! i + ?ds ! i) (snd (cs ! Suc i))
                  \<and> ?ts ! i + ?ds ! i \<le> ?ts ! Suc i
                  \<and> (snd (cs ! Suc i) \<le> ?ts ! i + ?ds ! i \<longrightarrow> ?ts ! Suc i = ?ts ! i + ?ds ! i)"
      using e by blast
  qed
  have first: "cs \<noteq> [] \<longrightarrow> ?ts ! 0 = max (nextStartTimeRef s) (snd (cs ! 0))
                  \<and> nextStartTimeRef (deliver bd cs s) = last ?ts + last ?ds"
    using hd cur by blast
  have main: "length ?ts = length cs \<and> sorted ?ts
            \<and> (cs \<noteq> [] \<longrightarrow> ?ts ! 0 = max (nextStartTimeRef s) (snd (cs ! 0))
                  \<and> nextStartTimeRef (deliver bd cs s) = last ?ts + last ?ds)
            \<and> (\<forall>i. Suc i < length cs \<longrightarrow>
                  ?ts ! Suc i = max (?ts ! i + ?ds ! i) (snd (cs ! Suc i))
                  \<and> ?ts ! i + ?ds ! i \<le> ?ts ! Suc i
                  \<and> (snd (cs ! Suc i) \<le> ?ts ! i + ?ds ! i \<longrightarrow> ?ts ! Suc i = ?ts ! i + ?ds ! i))"
    using len srt first succ by (intro conjI)
  show ?thesis unfolding Let_def ts by (rule main)
qed

theorem chunk_schedule_witness:
  "outputAudioCtxRef connected_example \<noteq> None \<and> list_all (playable one_second) chunks_in_time \<and>
   (let ts = drop (length (startTimes (calls connected_example)))
               (startTimes (calls (deliver one_second chunks_in_time connected_example)));
        ds = map (\<lambda>c. the (one_second (fst c))) chunks_in_time
    in ts = [0, 1] \<and> ds = [1, 1] \<and> ts ! Suc 0 = ts ! 0 + ds ! 0)"
proof -
  have a: "outputAudioCtxRef connected_example \<noteq> None" by (simp add: connected_example_def)
  have b: "list_all (playable one_second) chunks_in_time"
    by (simp add: chunks_in_time_def playable_def one_second_def)
  have c: "startTimes (calls (deliver one_second chunks_in_time connected_example)) = [0, 1]"
    by (simp add: chunks_in_time_def connected_example_def one_second_def handler_defs)
  have d: "calls connected_example = []" by (simp add: connected_example_def)
  have e: "map (\<lambda>c. the (one_second (fst c))) chunks_in_time = [1, 1]"
    by (simp add: chunks_in_time_def one_second_def)
  show ?thesis
    using a b chunk_schedule [OF a b] by (simp add: c d e Let_def)
qed

subsection \<open>C2: interruption\<close>

text \<open>
  C2: whatever the active playback set and the start-time cursor are, a message carrying
  the interruption signal, once its handler reaches the interruption branch, has stopped
  every node of the active set, left the set empty, set the cursor to zero and cleared
  the speaking flag, all inside the handler. A message that carries only the signal
  always reaches the branch and makes exactly these stop calls.
\<close>

theorem interruption_clears_playback:
  assumes "interrupted message"
  shows "(fst (onmessage bd currentTime message s) = None \<longrightarrow>
            sourcesRef (snd (onmessage bd currentTime message s)) = [] \<and>
            nextStartTimeRef (snd (onmessage bd currentTime message s)) = 0 \<and>
            \<not> isSpeaking (snd (onmessage bd currentTime message s)) \<and>
            (\<forall>n\<in>set (sourcesRef s).
               SourceStop n \<in> set (drop (length (calls s))
                                     (calls (snd (onmessage bd currentTime message s))))))
         \<and> (\<not> truthy (audioData message) \<longrightarrow>
               fst (onmessage bd currentTime message s) = None \<and>
               calls (snd (onmessage bd currentTime message s)) =
                 calls s @ map SourceStop (sourcesRef s))"
  using assms onmessage_interrupted_fields [of message bd currentTime s]
    onmessage_interrupted_stops [of message bd currentTime s]
    onmessage_signal_only [of message bd currentTime s]
  by blast

theorem interruption_clears_playback_witness:
  "interrupted interruption_message \<and>
   fst (onmessage five_seconds 3 interruption_message playing_example) = None \<and>
   sourcesRef playing_example = [0, 1] \<and>
   sourcesRef (snd (onmessage five_seconds 3 interruption_message playing_example)) = [] \<and>
   nextStartTimeRef (snd (onmessage five_seconds 3 interruption_message playing_example)) = 0 \<and>
   \<not> isSpeaking (snd (onmessage five_seconds 3 interruption_message playing_example)) \<and>
   calls (snd (onmessage five_seconds 3 interruption_message playing_example)) =
     [SourceStop 0, SourceStop 1]"
proof -
  have a: "interrupted interruption_message" by (simp add: interruption_message_def)
  have b: "\<not> truthy (audioData interruption_message)"
    by (simp add: interruption_message_def truthy_def)
  have c: "sourcesRef playing_example = [0, 1]" "calls playing_example = []"
    by (simp_all add: playing_example_def connected_example_def)
  show ?thesis
    using a b interruption_clears_playback [OF a, of five_seconds 3 playing_example]
    by (simp add: c)
qed

subsection \<open>C3: what teardown resets\<close>

text \<open>
  C3 at a failing input: teardown does reset the status, the flags, the intensity, the
  active set and the resource references (\<open>cleanup_fields\<close>), but it never writes
  \<open>nextStartTimeRef\<close>. After a session in which one chunk of five seconds was played,
  the channel closes: the status is \<open>disconnected\<close> and the cursor is still 5, not 0.
  In a second session the first chunk, arriving at clock 0 of the new output context, is
  therefore started at 5.
\<close>

theorem teardown_keeps_start_cursor:
  "status (run five_seconds no_blob (session_events @ [Close]) initial) = Disconnected \<and>
   sourcesRef (run five_seconds no_blob (session_events @ [Close]) initial) = [] \<and>
   nextStartTimeRef (run five_seconds no_blob (session_events @ [Close]) initial) = 5 \<and>
   startTimes (calls (run five_seconds no_blob (session_events @ [Close] @ session_events) initial))
     = [0, 5]"
  by (simp add: session_events_def chunk_message_def initial_def five_seconds_def handler_defs
      cleanup_defs)

subsection \<open>C5: teardown run twice\<close>

text \<open>
  C5 at a failing input: running teardown twice does give the state that running it once
  gives, call log and pending animation frames included (\<open>cleanup_twice\<close>), but that
  state is not the disconnected baseline, because teardown never writes
  \<open>nextStartTimeRef\<close>. After a session in which one chunk of five seconds was played,
  the user stops the conversation and the close callback of the channel runs teardown a
  second time: the second run changes nothing, the status is \<open>disconnected\<close>, the
  active set is empty, and the cursor is 5, where the baseline has 0.
\<close>

theorem double_teardown_keeps_start_cursor:
  "status (run five_seconds no_blob session_events initial) = Connected \<and>
   run five_seconds no_blob (session_events @ [ClickConnection 1 2, Close]) initial
     = run five_seconds no_blob (session_events @ [ClickConnection 1 2]) initial \<and>
   status (run five_seconds no_blob (session_events @ [ClickConnection 1 2, Close]) initial)
     = Disconnected \<and>
   sourcesRef (run five_seconds no_blob (session_events @ [ClickConnection 1 2, Close]) initial)
     = [] \<and>
   nextStartTimeRef (run five_seconds no_blob (session_events @ [ClickConnection 1 2, Close]) initial)
     = 5 \<and>
   nextStartTimeRef initial = 0"
proof -
  let ?s = "run five_seconds no_blob session_events initial"
  have st: "status ?s = Connected"
    by (simp add: session_events_def chunk_message_def initial_def five_seconds_def handler_defs)
  have cur: "nextStartTimeRef ?s = 5"
    by (simp add: session_events_def chunk_message_def initial_def five_seconds_def handler_defs)
  have one: "run five_seconds no_blob (session_events @ [ClickConnection 1 2]) initial = cleanup ?s"
    using st by (simp add: run_append toggleConnection_def)
  have two: "run five_seconds no_blob (session_events @ [ClickConnection 1 2, Close]) initial
               = cleanup (cleanup ?s)"
    using st by (simp add: run_append toggleConnection_def onclose_def)
  show ?thesis
    by (simp only: one two cleanup_twice cleanup_fields cleanup_frame st cur simp_thms)
       (simp add: initial_def)
qed

subsection \<open>C4: muting\<close>

text \<open>
  C4: for every sequence of captured blocks and mute toggles, starting where the mute
  state and the mute ref agree (as they do initially and after every toggle and
  teardown), the blobs sent to the session are the encodings of exactly the blocks
  captured while the mute flag was false, in capture order. A block captured while the
  flag is true is not sent, then or later. The callback decides on \<open>isMutedRef\<close> of the
  state in which the block is processed.
\<close>

theorem capture_forwards_unmuted:
  assumes "isMuted s = isMutedRef s"
  shows "sent (calls (capture enc es s)) = sent (calls s) @ map enc (spec_forwarded (isMutedRef s) es)
         \<and> calls (onaudioprocess enc inputData s) =
             (if isMutedRef s then calls s else calls s @ [SendRealtimeInput (enc inputData)])"
  using assms by (simp add: capture_sent onaudioprocess_def)

theorem capture_forwards_unmuted_witness:
  "isMuted connected_example = isMutedRef connected_example \<and>
   spec_forwarded (isMutedRef connected_example) capture_example = [[1 / 2], [0, 0, 0]] \<and>
   sent (calls (capture tag_blob capture_example connected_example)) = [''s'', ''sss'']"
proof -
  have a: "isMuted connected_example = isMutedRef connected_example"
    by (simp add: connected_example_def)
  have b: "spec_forwarded (isMutedRef connected_example) capture_example = [[1 / 2], [0, 0, 0]]"
    by (simp add: connected_example_def capture_example_def)
  have c: "calls connected_example = []" by (simp add: connected_example_def)
  show ?thesis
    using a capture_forwards_unmuted [OF a, of tag_blob capture_example]
    by (simp add: b c tag_blob_def)
qed

subsection \<open>C6: which failures set the error message\<close>

text \<open>
  C6: the channel-error handler sets the error message and then runs the teardown that
  the channel-close handler runs; the close handler leaves the error message as it was.
  The teardown of either handler is the full one: it closes the session, stops every
  track of the stream and every node of the active set, closes both audio contexts,
  cancels the pending animation frame, and leaves the status \<open>disconnected\<close>, the
  flags false, the intensity zero, the active set empty and the references released.
  Starting without an error message, an event leaves one exactly when it is a channel
  error or a failure while setting up capture or connection, that is, one that reaches
  the \<open>catch\<close> of \<open>connect\<close>. An exception inside the open or message callback
  sets none.
\<close>

theorem error_message_iff_failure:
  "errorMessage (onerror s) = Some ''A connection error occurred. Please try again.'' \<and>
   onerror s = onclose (s\<lparr>errorMessage := Some ''A connection error occurred. Please try again.''\<rparr>) \<and>
   errorMessage (onclose s) = errorMessage s \<and>
   status (onerror s) = Disconnected \<and> \<not> isSpeaking (onerror s) \<and> intensity (onerror s) = 0 \<and>
   \<not> isMuted (onerror s) \<and> \<not> isMutedRef (onerror s) \<and> sourcesRef (onerror s) = [] \<and>
   sessionRef (onerror s) = None \<and> streamRef (onerror s) = None \<and>
   inputAudioCtxRef (onerror s) = None \<and> outputAudioCtxRef (onerror s) = None \<and>
   calls (onerror s) =
     calls s
     @ (case sessionRef s of Some sess \<Rightarrow> [SessionClose sess] | None \<Rightarrow> [])
     @ (case streamRef s of Some tracks \<Rightarrow> map TrackStop tracks | None \<Rightarrow> [])
     @ map SourceStop (sourcesRef s)
     @ (case inputAudioCtxRef s of Some c \<Rightarrow> [ContextClose c] | None \<Rightarrow> [])
     @ (case outputAudioCtxRef s of Some c \<Rightarrow> [ContextClose c] | None \<Rightarrow> []) \<and>
   pendingFrames (onerror s) =
     (case rafRef s of Some r \<Rightarrow> if r \<noteq> 0 then pendingFrames s - {r} else pendingFrames s
      | None \<Rightarrow> pendingFrames s) \<and>
   status (onclose s) = Disconnected \<and> \<not> isSpeaking (onclose s) \<and> intensity (onclose s) = 0 \<and>
   \<not> isMuted (onclose s) \<and> \<not> isMutedRef (onclose s) \<and> sourcesRef (onclose s) = [] \<and>
   sessionRef (onclose s) = None \<and> streamRef (onclose s) = None \<and>
   inputAudioCtxRef (onclose s) = None \<and> outputAudioCtxRef (onclose s) = None \<and>
   calls (onclose s) = calls (onerror s) \<and>
   pendingFrames (onclose s) = pendingFrames (onerror s) \<and>
   (errorMessage s = None \<longrightarrow> (errorMessage (step bd enc e s) \<noteq> None) = is_failure s e)"
proof -
  let ?m = "s\<lparr>errorMessage := Some ''A connection error occurred. Please try again.''\<rparr>"
  have e: "onerror s = cleanup ?m" by (simp add: onerror_def)
  have c: "onclose s = cleanup s" by (simp add: onclose_def)
  have iff: "errorMessage s = None \<longrightarrow> (errorMessage (step bd enc e s) \<noteq> None) = is_failure s e"
    using step_errorMessage_set [of s bd enc e] by blast
  have msg: "errorMessage (onerror s) = Some ''A connection error occurred. Please try again.''"
    by (simp add: e cleanup_frame)
  have same: "onerror s = onclose ?m" by (simp add: onerror_def onclose_def)
  have keep: "errorMessage (onclose s) = errorMessage s" by (simp add: c cleanup_frame)
  have ecalls: "calls (onerror s) =
     calls s
     @ (case sessionRef s of Some sess \<Rightarrow> [SessionClose sess] | None \<Rightarrow> [])
     @ (case streamRef s of Some tracks \<Rightarrow> map TrackStop tracks | None \<Rightarrow> [])
     @ map SourceStop (sourcesRef s)
     @ (case inputAudioCtxRef s of Some c \<Rightarrow> [ContextClose c] | None \<Rightarrow> [])
     @ (case outputAudioCtxRef s of Some c \<Rightarrow> [ContextClose c] | None \<Rightarrow> [])"
    by (simp add: e cleanup_calls)
  have ccalls: "calls (onclose s) = calls (onerror s)"
    by (simp add: e c cleanup_calls)
  have eframes: "pendingFrames (onerror s) =
     (case rafRef s of Some r \<Rightarrow> if r \<noteq> 0 then pendingFrames s - {r} else pendingFrames s
      | None \<Rightarrow> pendingFrames s)"
    by (simp add: e cleanup_frames split: option.splits)
  have cframes: "pendingFrames (onclose s) = pendingFrames (onerror s)"
    by (simp add: e c cleanup_frames split: option.splits)
  have ef: "status (onerror s) = Disconnected \<and> \<not> isSpeaking (onerror s) \<and> intensity (onerror s) = 0 \<and>
   \<not> isMuted (onerror s) \<and> \<not> isMutedRef (onerror s) \<and> sourcesRef (onerror s) = [] \<and>
   sessionRef (onerror s) = None \<and> streamRef (onerror s) = None \<and>
   inputAudioCtxRef (onerror s) = None \<and> outputAudioCtxRef (onerror s) = None"
    by (simp add: e cleanup_fields)
  have cf: "status (onclose s) = Disconnected \<and> \<not> isSpeaking (onclose s) \<and> intensity (onclose s) = 0 \<and>
   \<not> isMuted (onclose s) \<and> \<not> isMutedRef (onclose s) \<and> sourcesRef (onclose s) = [] \<and>
   sessionRef (onclose s) = None \<and> streamRef (onclose s) = None \<and>
   inputAudioCtxRef (onclose s) = None \<and> outputAudioCtxRef (onclose s) = None"
    by (simp add: c cleanup_fields)
  show ?thesis
    using msg same keep ef ecalls eframes cf ccalls cframes iff by blast
qed

theorem error_message_iff_failure_witness:
  "errorMessage playing_example = None \<and>
   errorMessage (step five_seconds no_blob ChannelError playing_example) \<noteq> None \<and>
   errorMessage (step five_seconds no_blob Close playing_example) = None \<and>
   calls (onerror playing_example) =
     [SessionClose 1, TrackStop 1, SourceStop 0, SourceStop 1, ContextClose 1, ContextClose 2] \<and>
   calls (onclose playing_example) =
     [SessionClose 1, TrackStop 1, SourceStop 0, SourceStop 1, ContextClose 1, ContextClose 2] \<and>
   pendingFrames (onclose playing_example) = {}"
proof -
  have a: "errorMessage playing_example = None"
    by (simp add: playing_example_def connected_example_def)
  have b: "calls playing_example = []" "sessionRef playing_example = Some 1"
    "streamRef playing_example = Some [1]" "sourcesRef playing_example = [0, 1]"
    "inputAudioCtxRef playing_example = Some 1" "outputAudioCtxRef playing_example = Some 2"
    "rafRef playing_example = Some 1" "pendingFrames playing_example = {1}"
    by (simp_all add: playing_example_def connected_example_def)
  show ?thesis
    using a error_message_iff_failure [of playing_example five_seconds no_blob ChannelError]
      error_message_iff_failure [of playing_example five_seconds no_blob Close]
    by (simp add: b)
qed

subsection \<open>C8: the lifecycle\<close>

text \<open>
  C8, as stated, fails: a channel error in the \<open>connected\<close> state runs teardown, which
  sets the status to \<open>disconnected\<close>; the status is not \<open>error\<close>.
\<close>

theorem channel_error_status_counterexample:
  "status connected_example = Connected \<and>
   status (step five_seconds no_blob ChannelError connected_example) = Disconnected \<and>
   status (step five_seconds no_blob ChannelError connected_example) \<noteq> Error"
  by (simp add: connected_example_def onerror_def cleanup_fields)

text \<open>
  C8, amended: an event changes the status only in these ways: a click on the connection
  button while the status is neither \<open>connected\<close> nor \<open>connecting\<close> sets \<open>connecting\<close>;
  the channel's open callback sets \<open>connected\<close>; an event that runs teardown (stop,
  channel close, channel error, setup failure, unmount) sets \<open>disconnected\<close>. A channel
  error surfaces its message, runs teardown and leaves the status \<open>disconnected\<close>.
  Nothing assigns \<open>error\<close>: a run that starts in another status never reaches it.
\<close>

theorem lifecycle_transitions:
  "(status (step bd enc e s) = status s
     \<or> (is_click_connection e \<and> status s \<noteq> Connected \<and> status s \<noteq> Connecting
          \<and> status (step bd enc e s) = Connecting)
     \<or> (e = Open \<and> status (step bd enc e s) = Connected)
     \<or> (is_teardown s e \<and> status (step bd enc e s) = Disconnected))
   \<and> status (step bd enc ChannelError s) = Disconnected
   \<and> errorMessage (step bd enc ChannelError s)
        = Some ''A connection error occurred. Please try again.''
   \<and> (status s \<noteq> Error \<longrightarrow> status (run bd enc es s) \<noteq> Error)"
  using step_status [of bd enc e s] run_not_Error [of s bd enc es]
  by (simp add: onerror_def cleanup_fields cleanup_frame)

theorem lifecycle_transitions_witness:
  "status initial \<noteq> Error \<and>
   status (run five_seconds no_blob (session_events @ [ChannelError]) initial) \<noteq> Error \<and>
   status (run five_seconds no_blob session_events initial) = Connected \<and>
   status (run five_seconds no_blob (session_events @ [ChannelError]) initial) = Disconnected"
proof -
  have a: "status initial \<noteq> Error" by (simp add: initial_def)
  have b: "status (run five_seconds no_blob session_events initial) = Connected"
    by (simp add: session_events_def chunk_message_def initial_def five_seconds_def handler_defs)
  have c: "status (run five_seconds no_blob (session_events @ [ChannelError]) initial) = Disconnected"
    by (simp add: session_events_def chunk_message_def initial_def five_seconds_def handler_defs
        cleanup_fields)
  show ?thesis
    using a b c
      lifecycle_transitions [of five_seconds no_blob ChannelError initial "session_events @ [ChannelError]"]
    by simp
qed

subsection \<open>C10: teardown and the error message\<close>

text \<open>
  C10: teardown leaves the error message as it was. The beginning of a connect attempt
  clears it, and an event that turns a present message into none is a click on the
  connection button that begins a connect attempt. So along a run without such clicks a
  message that is present stays present, and every event that is neither a failure nor
  such a click leaves the message unchanged.
\<close>

theorem teardown_keeps_error_message:
  "errorMessage (cleanup s) = errorMessage s
   \<and> errorMessage (connect_begin ctxIn ctxOut s) = None
   \<and> (errorMessage s \<noteq> None \<and> errorMessage (step bd enc e s) = None \<longrightarrow>
         is_click_connection e \<and> status s \<noteq> Connected \<and> status s \<noteq> Connecting)
   \<and> (\<not> is_failure s e \<and> \<not> is_click_connection e \<longrightarrow>
         errorMessage (step bd enc e s) = errorMessage s)
   \<and> (errorMessage s \<noteq> None \<and> list_all (\<lambda>e. \<not> is_click_connection e) es \<longrightarrow>
         errorMessage (run bd enc es s) \<noteq> None)"
  using step_errorMessage_cleared [of s bd enc e] step_errorMessage_same [of s e bd enc]
    run_errorMessage_kept [of s es bd enc]
  by (simp add: cleanup_frame connect_begin_def)

theorem teardown_keeps_error_message_witness:
  "errorMessage (onerror connected_example) \<noteq> None \<and>
   list_all (\<lambda>e. \<not> is_click_connection e) [Close, Unmount, Ended 0] \<and>
   errorMessage (run five_seconds no_blob [Close, Unmount, Ended 0] (onerror connected_example))
     \<noteq> None \<and>
   \<not> is_failure (onerror connected_example) Close \<and> \<not> is_click_connection Close \<and>
   errorMessage (step five_seconds no_blob Close (onerror connected_example))
     = errorMessage (onerror connected_example)"
proof -
  have a: "errorMessage (onerror connected_example) \<noteq> None"
    by (simp add: onerror_def cleanup_frame)
  show ?thesis
    using a
      teardown_keeps_error_message [of "onerror connected_example" _ _ five_seconds no_blob Close
        "[Close, Unmount, Ended 0]"]
    by simp
qed

subsection \<open>C9: sample conversion\<close>

text \<open>
  C9: for every sample, inside [-1, 1] or not, and every positive scale factor, the
  converted value is the truncation of the scaled sample clamped to [-32768, 32767]:
  storing it in 16 bits does not wrap. So a non-negative sample gives a non-negative
  value, a non-positive sample a non-positive value, and a sample beyond the range gives
  the nearest end of the range.
\<close>

theorem pcm16_clamps:
  assumes "0 < scale"
  shows "sint (spec_pcm16 scale sample) =
           (let v = max (- 32768) (min 32767 (sample * scale)) in if 0 \<le> v then \<lfloor>v\<rfloor> else \<lceil>v\<rceil>)
         \<and> (0 \<le> sample \<longrightarrow> 0 \<le> sint (spec_pcm16 scale sample))
         \<and> (sample \<le> 0 \<longrightarrow> sint (spec_pcm16 scale sample) \<le> 0)
         \<and> (32767 \<le> sample * scale \<longrightarrow> sint (spec_pcm16 scale sample) = 32767)
         \<and> (sample * scale \<le> - 32768 \<longrightarrow> sint (spec_pcm16 scale sample) = - 32768)"
proof -
  define v where "v = max (- 32768) (min 32767 (sample * scale))"
  have val: "sint (spec_pcm16 scale sample) = (if 0 \<le> v then \<lfloor>v\<rfloor> else \<lceil>v\<rceil>)"
    by (simp only: pcm_value Let_def v_def)
  have pos: "0 \<le> v" if "0 \<le> sample"
  proof -
    have "0 \<le> sample * scale" using that assms by simp
    then show ?thesis by (simp add: v_def)
  qed
  have neg: "v \<le> 0" if "sample \<le> 0"
  proof -
    have "sample * scale \<le> 0" using that assms by (simp add: mult_le_0_iff)
    then show ?thesis by (simp add: v_def)
  qed
  have c1: "0 \<le> sint (spec_pcm16 scale sample)" if "0 \<le> sample"
    using pos [OF that] by (simp add: val)
  have c2: "sint (spec_pcm16 scale sample) \<le> 0" if "sample \<le> 0"
    using neg [OF that] by (simp add: val ceiling_le_iff)
  have c3: "sint (spec_pcm16 scale sample) = 32767" if "32767 \<le> sample * scale"
  proof -
    have "v = 32767" using that by (simp add: v_def)
    then show ?thesis by (simp add: val)
  qed
  have c4: "sint (spec_pcm16 scale sample) = - 32768" if "sample * scale \<le> - 32768"
  proof -
    have "v = - 32768" using that by (simp add: v_def)
    then show ?thesis by (simp add: val)
  qed
  show ?thesis using val c1 c2 c3 c4 unfolding v_def Let_def by blast
qed

theorem pcm16_clamps_witness:
  "(0::real) < 32768 \<and> sint (spec_pcm16 32768 (3 / 2)) = 32767 \<and>
   sint (toInt16 (3 / 2 * 32768)) = - 16384 \<and>
   sint (spec_pcm16 32768 (- 1 / 3)) = - 10922"
proof -
  have a: "(0::real) < 32768" by simp
  have b: "sint (toInt16 (3 / 2 * 32768)) = - 16384" by (simp add: toInt16_def)
  show ?thesis
    using a b pcm16_clamps [OF a, of "3 / 2"] pcm16_clamps [OF a, of "- 1 / 3"] by simp
qed

subsection \<open>C7: the speaking flag and the active playback set\<close>

text \<open>
  C7: in every run that starts where the nodes of the active set are nodes that were
  created, each handler running to its end, every transition obeys: when the speaking
  flag goes from true to false the active set is empty afterwards; when the active set
  goes from non-empty to empty the speaking flag is false afterwards; a node leaves the
  set only at its own \<open>ended\<close> event, at an interruption or at teardown, and after its
  \<open>ended\<close> event it is not in the set. Over the whole run no node leaves the set more
  than once.
\<close>

theorem speaking_follows_active_set:
  assumes "nodes_created s"
  shows "(\<forall>tr\<in>set (transitions bd enc es s).
            (isSpeaking (fst tr) \<and> \<not> isSpeaking (snd (snd tr)) \<longrightarrow> sourcesRef (snd (snd tr)) = [])
          \<and> (sourcesRef (fst tr) \<noteq> [] \<and> sourcesRef (snd (snd tr)) = [] \<longrightarrow>
                \<not> isSpeaking (snd (snd tr)))
          \<and> (\<forall>n. removed n tr \<longrightarrow>
                fst (snd tr) = Ended n \<or> is_interruption (fst (snd tr))
                \<or> is_teardown (fst tr) (fst (snd tr)))
          \<and> (\<forall>n. fst (snd tr) = Ended n \<longrightarrow> n \<notin> set (sourcesRef (snd (snd tr)))))
         \<and> (\<forall>n. length (filter (removed n) (transitions bd enc es s)) \<le> 1)"
proof (intro conjI ballI allI)
  fix tr assume tr: "tr \<in> set (transitions bd enc es s)"
  have st: "snd (snd tr) = step bd enc (fst (snd tr)) (fst tr)"
    using tr by (rule transitions_steps)
  show "isSpeaking (fst tr) \<and> \<not> isSpeaking (snd (snd tr)) \<longrightarrow> sourcesRef (snd (snd tr)) = []"
    using step_speaking_cleared [of "fst tr" bd enc "fst (snd tr)"] by (simp only: st) blast
  show "sourcesRef (fst tr) \<noteq> [] \<and> sourcesRef (snd (snd tr)) = [] \<longrightarrow> \<not> isSpeaking (snd (snd tr))"
    using step_emptied [of "fst tr" bd enc "fst (snd tr)"] by (simp only: st) blast
  show "removed n tr \<longrightarrow>
          fst (snd tr) = Ended n \<or> is_interruption (fst (snd tr))
          \<or> is_teardown (fst tr) (fst (snd tr))" for n
    using step_removed_by [of n "fst tr" bd enc "fst (snd tr)"]
    by (simp only: removed_def st) blast
  show "fst (snd tr) = Ended n \<longrightarrow> n \<notin> set (sourcesRef (snd (snd tr)))" for n
    using step_Ended_absent [of n bd enc "fst tr"] by (simp only: st) metis
next
  fix n
  show "length (filter (removed n) (transitions bd enc es s)) \<le> 1"
    using assms by (rule removed_at_most_once)
qed

theorem speaking_follows_active_set_witness:
  "nodes_created initial \<and>
   length (filter (removed 0) (transitions five_seconds no_blob playback_events initial)) = 1 \<and>
   length (filter (removed 1) (transitions five_seconds no_blob playback_events initial)) = 1 \<and>
   length (filter (removed 0) (transitions five_seconds no_blob playback_events initial)) \<le> 1"
proof -
  have a: "nodes_created initial" by (simp add: nodes_created_def initial_def)
  have b: "length (filter (removed 0) (transitions five_seconds no_blob playback_events initial)) = 1"
    by (simp add: playback_events_def session_events_def chunk_message_def
        interruption_message_def initial_def five_seconds_def removed_def handler_defs)
  have c: "length (filter (removed 1) (transitions five_seconds no_blob playback_events initial)) = 1"
    by (simp add: playback_events_def session_events_def chunk_message_def
        interruption_message_def initial_def five_seconds_def removed_def handler_defs)
  show ?thesis
    using a b c speaking_follows_active_set [OF a, of five_seconds no_blob playback_events]
    by simp
qed

end
